theory Spec2Isabelle
  imports Complex_Main "HOL-Library.Signed_Division"
begin

section \<open>JavaScript numbers\<close>

text \<open>
  A JavaScript number is a finite value, one of the two infinities or NaN. Finite
  results are taken to be exact (no rounding, no overflow) and the two zeros are not told
  apart, a zero divisor counting as positive; the infinities and NaN behave as IEEE 754
  has them. Indices and step counters, which the program only ever compares with array
  positions or advances by one, are \<open>int\<close>.
\<close>

datatype number = Fin real | PInf | NInf | NaN

fun js_neg :: "number \<Rightarrow> number" where
  "js_neg (Fin a) = Fin (- a)"
| "js_neg PInf = NInf"
| "js_neg NInf = PInf"
| "js_neg NaN = NaN"

fun js_add :: "number \<Rightarrow> number \<Rightarrow> number" where
  "js_add NaN _ = NaN"
| "js_add _ NaN = NaN"
| "js_add (Fin a) (Fin b) = Fin (a + b)"
| "js_add PInf NInf = NaN"
| "js_add NInf PInf = NaN"
| "js_add PInf _ = PInf"
| "js_add _ PInf = PInf"
| "js_add NInf _ = NInf"
| "js_add _ NInf = NInf"

definition js_sub :: "number \<Rightarrow> number \<Rightarrow> number" where
  "js_sub a b = js_add a (js_neg b)"

fun js_mul :: "number \<Rightarrow> number \<Rightarrow> number" where
  "js_mul NaN _ = NaN"
| "js_mul _ NaN = NaN"
| "js_mul (Fin a) (Fin b) = Fin (a * b)"
| "js_mul (Fin a) PInf = (if a = 0 then NaN else if 0 < a then PInf else NInf)"
| "js_mul (Fin a) NInf = (if a = 0 then NaN else if 0 < a then NInf else PInf)"
| "js_mul PInf (Fin b) = (if b = 0 then NaN else if 0 < b then PInf else NInf)"
| "js_mul NInf (Fin b) = (if b = 0 then NaN else if 0 < b then NInf else PInf)"
| "js_mul PInf PInf = PInf"
| "js_mul PInf NInf = NInf"
| "js_mul NInf PInf = NInf"
| "js_mul NInf NInf = PInf"

fun js_div :: "number \<Rightarrow> number \<Rightarrow> number" where
  "js_div NaN _ = NaN"
| "js_div _ NaN = NaN"
| "js_div (Fin a) (Fin b) =
     (if b = 0 then (if a = 0 then NaN else if 0 < a then PInf else NInf) else Fin (a / b))"
| "js_div (Fin a) PInf = Fin 0"
| "js_div (Fin a) NInf = Fin 0"
| "js_div PInf (Fin b) = (if 0 \<le> b then PInf else NInf)"
| "js_div NInf (Fin b) = (if 0 \<le> b then NInf else PInf)"
| "js_div _ _ = NaN"

text \<open>\<open>a >= b\<close>: false as soon as one side is NaN.\<close>

fun js_ge :: "number \<Rightarrow> number \<Rightarrow> bool" where
  "js_ge NaN _ = False"
| "js_ge _ NaN = False"
| "js_ge (Fin a) (Fin b) = (b \<le> a)"
| "js_ge PInf _ = True"
| "js_ge _ NInf = True"
| "js_ge _ _ = False"

text \<open>\<open>Math.max\<close> and \<open>Math.min\<close> of two numbers: NaN as soon as one of them is.\<close>

definition js_max :: "number \<Rightarrow> number \<Rightarrow> number" where
  "js_max a b = (if a = NaN \<or> b = NaN then NaN else if js_ge a b then a else b)"

definition js_min :: "number \<Rightarrow> number \<Rightarrow> number" where
  "js_min a b = (if a = NaN \<or> b = NaN then NaN else if js_ge a b then b else a)"

text \<open>\<open>a === b\<close> on numbers: NaN is equal to nothing, itself included.\<close>

definition js_strict_eq :: "number \<Rightarrow> number \<Rightarrow> bool" where
  "js_strict_eq a b = (a \<noteq> NaN \<and> b \<noteq> NaN \<and> a = b)"

section \<open>The sequencer state (frontend/src/hooks/useSequencer.ts)\<close>

text \<open>
  \<open>Array.prototype.map\<close> with the two-argument callback \<open>(element, index) => ...\<close>:
  the result has the length of the input and position \<open>i\<close> holds the callback's
  value at the element and its index.
\<close>

definition map_with_index :: "('a \<Rightarrow> nat \<Rightarrow> 'b) \<Rightarrow> 'a list \<Rightarrow> 'b list" where
  "map_with_index f xs = map (\<lambda>i. f (xs ! i) i) [0..<length xs]"

text \<open>
  The truthiness of \<open>row[stepIndex]\<close> for a row of booleans: an index that is not a
  position of the array reads \<open>undefined\<close>, which is falsy.
\<close>

definition row_truthy :: "bool list \<Rightarrow> int \<Rightarrow> bool" where
  "row_truthy row stepIndex =
     (if 0 \<le> stepIndex \<and> stepIndex < int (length row) then row ! nat stepIndex else False)"

record sequencer_state =
  grid :: "bool list list"
  isPlaying :: bool
  currentStep :: int
  bpm :: number

text \<open>
  The error kind that the specification names for index checks. The hook contains no
  \<open>throw\<close> statement, so no operation below ever produces it.
\<close>

datatype error = InvalidIndexError

definition initializeGrid :: "bool list list" where
  "initializeGrid = replicate 8 (replicate 16 False)"

definition initial_state :: sequencer_state where
  "initial_state = \<lparr>grid = initializeGrid, isPlaying = False, currentStep = 0, bpm = Fin 120\<rparr>"

text \<open>The shape every grid of the hook has: 8 rows of 16 pads.\<close>

definition grid_shape :: "bool list list \<Rightarrow> bool" where
  "grid_shape g = (length g = 8 \<and> list_all (\<lambda>row. length row = 16) g)"

text \<open>
  \<open>togglePad\<close>: the state updater handed to \<open>setState\<close>. The result is a sum so
  that a rejection could be expressed; the source has a single, normal exit.
\<close>

definition togglePad :: "int \<Rightarrow> int \<Rightarrow> sequencer_state \<Rightarrow> error + sequencer_state" where
  "togglePad channelIndex stepIndex prev =
     (let newGrid =
        map_with_index (\<lambda>row rowIndex.
          if int rowIndex = channelIndex
          then map_with_index (\<lambda>pad padIndex. if int padIndex = stepIndex then \<not> pad else pad) row
          else row) (grid prev)
      in Inr (prev\<lparr>grid := newGrid\<rparr>))"

text \<open>
  \<open>getActiveChannels\<close>: every row is mapped to its channel index when the pad at
  \<open>stepIndex\<close> is set and to \<open>-1\<close> otherwise, and the \<open>-1\<close> entries are filtered out.
\<close>

definition getActiveChannels :: "sequencer_state \<Rightarrow> int \<Rightarrow> int list" where
  "getActiveChannels state stepIndex =
     filter (\<lambda>channelIndex. channelIndex \<noteq> - 1)
       (map_with_index (\<lambda>row channelIndex. if row_truthy row stepIndex then int channelIndex else - 1)
          (grid state))"

text \<open>
  The two nested maps of \<open>togglePad\<close>, named so that the proofs can speak about
  rows and about the grid separately.
\<close>

definition toggle_row :: "int \<Rightarrow> bool list \<Rightarrow> bool list" where
  "toggle_row stepIndex row =
     map_with_index (\<lambda>pad padIndex. if int padIndex = stepIndex then \<not> pad else pad) row"

definition toggle_grid :: "int \<Rightarrow> int \<Rightarrow> bool list list \<Rightarrow> bool list list" where
  "toggle_grid channelIndex stepIndex g =
     map_with_index (\<lambda>row rowIndex. if int rowIndex = channelIndex then toggle_row stepIndex row else row) g"

text \<open>A pattern with the first and the third channel set on every step.\<close>

definition demo_state :: sequencer_state where
  "demo_state = initial_state\<lparr>grid :=
     [replicate 16 True, replicate 16 False, replicate 16 True] @ replicate 5 (replicate 16 False)\<rparr>"

section \<open>The audio clock (frontend/src/utils/AudioClock.ts)\<close>

text \<open>
  What a method of the clock does to its surroundings, in the order it does it: a call of
  the registered step callback with a step index, a \<open>requestAnimationFrame\<close> of
  \<open>checkTiming\<close>, a \<open>cancelAnimationFrame\<close> of a handle.
\<close>

datatype clock_effect = StepCallback int | RequestFrame | CancelFrame nat

text \<open>
  The fields of the class. \<open>audioContext\<close> records whether the field holds a context
  or \<open>null\<close>; the reading of \<open>audioContext.currentTime\<close>, a finite number, is an
  argument of the methods that read it. \<open>onStepCallback\<close> records whether a callback is
  registered. \<open>animationFrameId\<close> is \<open>null\<close> or the handle of the last frame request.
\<close>

record audio_clock =
  audioContext :: bool
  isRunning :: bool
  bpm :: number
  currentStep :: int
  animationFrameId :: "nat option"
  startTime :: number
  nextStepTime :: number
  stepDuration :: number
  onStepCallback :: bool

text \<open>The private field \<open>totalSteps = 16\<close> is never assigned again.\<close>

definition totalSteps :: int where
  "totalSteps = 16"

definition calculateStepDuration :: "audio_clock \<Rightarrow> number" where
  "calculateStepDuration c = js_div (js_div (Fin 60) (bpm c)) (Fin 4)"

text \<open>
  \<open>triggerStep\<close>: the optional call \<open>onStepCallback?.(currentStep)\<close>, then the advance.
  JavaScript's \<open>%\<close> takes the sign of the dividend, which is \<open>smod\<close>. The callback is
  taken not to call back into the clock: the one \<open>useSequencer\<close> registers stores the
  step and forwards it to the trigger dispatch.
\<close>

definition triggerStep :: "audio_clock \<Rightarrow> clock_effect list \<times> audio_clock" where
  "triggerStep c =
     ((if onStepCallback c then [StepCallback (currentStep c)] else []),
      c\<lparr>currentStep := (currentStep c + 1) smod totalSteps\<rparr>)"

text \<open>
  \<open>checkTiming\<close>, run at a moment when the context's clock reads \<open>currentTime\<close>;
  \<open>handle\<close> is what \<open>requestAnimationFrame\<close> returns for the next check.
\<close>

definition checkTiming :: "real \<Rightarrow> nat \<Rightarrow> audio_clock \<Rightarrow> clock_effect list \<times> audio_clock" where
  "checkTiming currentTime handle c =
     (if \<not> isRunning c \<or> \<not> audioContext c then ([], c)
      else
        let (fired, c1) =
              (if js_ge (Fin currentTime) (nextStepTime c)
               then (let (fx, c') = triggerStep c
                     in (fx, c'\<lparr>nextStepTime := js_add (nextStepTime c') (stepDuration c')\<rparr>))
               else ([], c))
        in (fired @ [RequestFrame], c1\<lparr>animationFrameId := Some handle\<rparr>))"

text \<open>
  \<open>start\<close> is asynchronous: it runs up to \<open>await this.initialize()\<close>, and its
  continuation runs later, after whatever else was called in between.

  \<open>start_begin\<close> is the part before the await. A running clock returns at once and
  nothing stays behind (\<open>False\<close>). Otherwise \<open>initialize\<close> has begun, which creates the
  context when the field is \<open>null\<close> (\<open>created\<close>: the constructor did not throw), and a
  continuation is awaiting its result (\<open>True\<close>).
\<close>

definition start_begin :: "bool \<Rightarrow> audio_clock \<Rightarrow> bool \<times> audio_clock" where
  "start_begin created c =
     (if isRunning c then (False, c)
      else (True, if \<not> audioContext c \<and> created then c\<lparr>audioContext := True\<rparr> else c))"

text \<open>
  \<open>start_resume\<close> is the continuation, for a call \<open>start(newBpm, startStep)\<close> whose
  \<open>initialize\<close> resolved to \<open>initialized\<close>. It does not look at \<open>isRunning\<close> again.
  The result is what the promise resolves to; \<open>None\<close> is the \<open>TypeError\<close> of reading
  \<open>currentTime\<close> from a context field that has become \<open>null\<close>.
\<close>

definition start_resume ::
  "number \<Rightarrow> int \<Rightarrow> bool \<Rightarrow> real \<Rightarrow> nat \<Rightarrow> audio_clock \<Rightarrow> bool option \<times> clock_effect list \<times> audio_clock" where
  "start_resume newBpm startStep initialized currentTime handle c =
     (if \<not> initialized then (Some False, [], c)
      else
        let c1 = c\<lparr>bpm := js_max (Fin 80) (js_min (Fin 200) newBpm)\<rparr>;
            c2 = c1\<lparr>currentStep := startStep\<rparr>;
            c3 = c2\<lparr>isRunning := True\<rparr>;
            c4 = c3\<lparr>stepDuration := calculateStepDuration c3\<rparr>
        in if \<not> audioContext c4 then (None, [], c4)
           else
             let c5 = c4\<lparr>startTime := Fin currentTime\<rparr>;
                 c6 = c5\<lparr>nextStepTime := js_add (startTime c5) (stepDuration c5)\<rparr>;
                 (fx, c7) = checkTiming currentTime handle c6
             in (Some True, fx, c7))"

text \<open>
  \<open>stop\<close>. The test \<open>if (this.animationFrameId)\<close> is JavaScript truthiness: \<open>null\<close>
  and the number 0 both skip the cancellation.
\<close>

definition stop :: "audio_clock \<Rightarrow> clock_effect list \<times> audio_clock" where
  "stop c =
     (let c1 = c\<lparr>isRunning := False\<rparr>;
          (fx, c2) =
            (case animationFrameId c1 of
               Some h \<Rightarrow>
                 if h \<noteq> 0 then ([CancelFrame h], c1\<lparr>animationFrameId := None\<rparr>) else ([], c1)
             | None \<Rightarrow> ([], c1))
      in (fx, c2\<lparr>currentStep := 0\<rparr>))"

text \<open>
  \<open>setBpm\<close>, called with any number at a moment when the context's clock reads
  \<open>currentTime\<close>.
\<close>

definition setBpm :: "number \<Rightarrow> real \<Rightarrow> audio_clock \<Rightarrow> clock_effect list \<times> audio_clock" where
  "setBpm newBpm currentTime c =
     (let clampedBpm = js_max (Fin 80) (js_min (Fin 200) newBpm) in
      if js_strict_eq clampedBpm (bpm c) then ([], c)
      else
        let c1 = c\<lparr>bpm := clampedBpm\<rparr> in
        if isRunning c1 \<and> audioContext c1 then
          (let oldStepDuration = stepDuration c1;
               c2 = c1\<lparr>stepDuration := calculateStepDuration c1\<rparr>;
               timeUntilNextStep = js_sub (nextStepTime c2) (Fin currentTime);
               adjustmentFactor = js_div (stepDuration c2) oldStepDuration
           in ([], c2\<lparr>nextStepTime :=
                       js_add (Fin currentTime) (js_mul timeUntilNextStep adjustmentFactor)\<rparr>))
        else ([], c1))"

definition onStep :: "audio_clock \<Rightarrow> clock_effect list \<times> audio_clock" where
  "onStep c = ([], c\<lparr>onStepCallback := True\<rparr>)"

text \<open>
  What can be done to a clock: a run of \<open>checkTiming\<close> (by a frame callback, whether it
  was cancelled or not), \<open>setBpm\<close>, \<open>stop\<close>, \<open>onStep\<close>, the beginning of a \<open>start\<close>
  and the continuation of one.
\<close>

datatype clock_call =
    CheckTiming real nat
  | SetBpm number real
  | Stop
  | OnStep
  | StartBegin bool
  | StartResume number int bool real nat

fun call :: "clock_call \<Rightarrow> audio_clock \<Rightarrow> clock_effect list \<times> audio_clock" where
  "call (CheckTiming currentTime handle) c = checkTiming currentTime handle c"
| "call (SetBpm newBpm currentTime) c = setBpm newBpm currentTime c"
| "call Stop c = stop c"
| "call OnStep c = onStep c"
| "call (StartBegin created) c = ([], snd (start_begin created c))"
| "call (StartResume newBpm startStep initialized currentTime handle) c =
     snd (start_resume newBpm startStep initialized currentTime handle c)"

fun run_calls :: "clock_call list \<Rightarrow> audio_clock \<Rightarrow> clock_effect list \<times> audio_clock" where
  "run_calls [] c = ([], c)"
| "run_calls (e # es) c =
     (let (fx, c1) = call e c; (fxs, c2) = run_calls es c1 in (fx @ fxs, c2))"

fun resumes_start :: "clock_call \<Rightarrow> bool" where
  "resumes_start (StartResume _ _ _ _ _) = True"
| "resumes_start _ = False"

text \<open>The step indices handed to the step callback, in order.\<close>

fun step_callbacks :: "clock_effect list \<Rightarrow> int list" where
  "step_callbacks [] = []"
| "step_callbacks (StepCallback n # fx) = n # step_callbacks fx"
| "step_callbacks (_ # fx) = step_callbacks fx"

text \<open>
  A clock as \<open>start(120, 0)\<close> leaves it when the context's clock reads 2: running, tempo
  120, step duration 0.125, first deadline at 2.125, a subscriber registered.
\<close>

definition started_clock :: audio_clock where
  "started_clock =
     \<lparr>audioContext = True, isRunning = True, bpm = Fin 120, currentStep = 0,
      animationFrameId = Some 1, startTime = Fin 2, nextStepTime = Fin (2 + 1 / 8),
      stepDuration = Fin (1 / 8), onStepCallback = True\<rparr>"

text \<open>
  A clock that has played before and is at rest: not running, the context kept, a
  subscriber registered.
\<close>

definition idle_clock :: audio_clock where
  "idle_clock =
     \<lparr>audioContext = True, isRunning = False, bpm = Fin 120, currentStep = 0,
      animationFrameId = None, startTime = Fin 0, nextStepTime = Fin (1 / 8),
      stepDuration = Fin (1 / 8), onStepCallback = True\<rparr>"

section \<open>The connection session (frontend/src/hooks/useWebSocket.ts)\<close>

text \<open>
  The ready states of the socket that the hook's library reports; the hook compares the
  current one with \<open>OPEN\<close> only.
\<close>

datatype ready_state = UNINSTANTIATED | CONNECTING | OPEN | CLOSING | CLOSED

text \<open>
  The payloads the hook builds, with the fields of its object literals:
  \<open>{channels, duration}\<close>, \<open>{channel, duration}\<close>, \<open>{channels}\<close> and \<open>{timestamp}\<close>.
\<close>

datatype message_data =
    GPIOCommand "int list" int
  | ImmediateTrigger int int
  | StopChannels "int list"
  | Ping int

record ws_message =
  type :: string
  data :: message_data

text \<open>
  What the hook holds and what it has done: the ready state, the \<open>lastError\<close> state,
  whether the caller gave an \<open>onError\<close> option, the messages handed to
  \<open>sendJsonMessage\<close> so far (every call, in order) and the texts handed to \<open>onError\<close>.
\<close>

record session =
  readyState :: ready_state
  lastError :: "string option"
  onError :: bool
  sendJsonMessage_calls :: "ws_message list"
  onError_calls :: "string list"

definition isConnected :: "session \<Rightarrow> bool" where
  "isConnected s = (readyState s = OPEN)"

text \<open>
  \<open>sendMessage\<close>. \<open>thrown\<close> is what \<open>sendJsonMessage\<close> throws when it is called:
  \<open>None\<close> when it returns normally, which is the send being accepted.
\<close>

definition sendMessage :: "ws_message \<Rightarrow> string option \<Rightarrow> session \<Rightarrow> bool \<times> session" where
  "sendMessage message thrown s =
     (if \<not> isConnected s then
        (let errorMessage = ''WebSocket not connected''
         in (False, s\<lparr>lastError := Some errorMessage\<rparr>))
      else
        (let s1 = s\<lparr>sendJsonMessage_calls := sendJsonMessage_calls s @ [message]\<rparr> in
         case thrown of
           None \<Rightarrow> (True, s1)
         | Some error \<Rightarrow>
             (let errorMessage = ''Failed to send message: '' @ error;
                  s2 = s1\<lparr>lastError := Some errorMessage\<rparr>
              in (False,
                  if onError s2 then s2\<lparr>onError_calls := onError_calls s2 @ [errorMessage]\<rparr>
                  else s2))))"

text \<open>\<open>triggerGPIO\<close>; a caller that omits the duration gets 50.\<close>

definition triggerGPIO :: "int list \<Rightarrow> int \<Rightarrow> string option \<Rightarrow> session \<Rightarrow> bool \<times> session" where
  "triggerGPIO channels duration thrown s =
     (let command = GPIOCommand channels duration
      in sendMessage \<lparr>type = ''gpio_trigger'', data = command\<rparr> thrown s)"

definition triggerImmediate :: "int \<Rightarrow> int \<Rightarrow> string option \<Rightarrow> session \<Rightarrow> bool \<times> session" where
  "triggerImmediate channel duration thrown s =
     (let trigger = ImmediateTrigger channel duration
      in sendMessage \<lparr>type = ''immediate_trigger'', data = trigger\<rparr> thrown s)"

text \<open>A session whose socket has closed, and the same session with the socket open.\<close>

definition closed_session :: session where
  "closed_session =
     \<lparr>readyState = CLOSED, lastError = None, onError = True,
      sendJsonMessage_calls = [], onError_calls = []\<rparr>"

definition open_session :: session where
  "open_session = closed_session\<lparr>readyState := OPEN\<rparr>"

text \<open>
  The reconnection options the hook passes to the library: \<open>shouldReconnect: () => true\<close>
  (the same answer for every close event), \<open>reconnectAttempts: 1\<close> and
  \<open>reconnectInterval: 3000\<close>, a number of milliseconds.
\<close>

record reconnect_options =
  shouldReconnect :: bool
  reconnectAttempts :: nat
  reconnectInterval :: nat

definition useWebSocket_options :: reconnect_options where
  "useWebSocket_options =
     \<lparr>shouldReconnect = True, reconnectAttempts = 1, reconnectInterval = 3000\<rparr>"

text \<open>
  The retry scheduling itself is done by the library (react-use-websocket), whose code is
  not part of the repository. By the meaning the library documents for these options:
  after a close for which \<open>shouldReconnect\<close> answers true, and while fewer than
  \<open>reconnectAttempts\<close> attempts have been made since the socket was last open, the next
  attempt is scheduled \<open>reconnectInterval\<close> milliseconds later; otherwise none is.
  \<open>next_reconnect opts attemptsMade\<close> is that delay, if an attempt is scheduled.
\<close>

definition next_reconnect :: "reconnect_options \<Rightarrow> nat \<Rightarrow> nat option" where
  "next_reconnect opts attemptsMade =
     (if shouldReconnect opts \<and> attemptsMade < reconnectAttempts opts
      then Some (reconnectInterval opts) else None)"

section \<open>Array helpers\<close>

lemma length_map_with_index: "length (map_with_index f xs) = length xs"
  by (simp add: map_with_index_def)

lemma nth_map_with_index: "i < length xs \<Longrightarrow> map_with_index f xs ! i = f (xs ! i) i"
  by (simp add: map_with_index_def)

lemma map_with_index_unchanged:
  assumes "\<And>i. i < length xs \<Longrightarrow> f (xs ! i) i = xs ! i"
  shows "map_with_index f xs = xs"
  by (rule nth_equalityI) (simp_all add: length_map_with_index nth_map_with_index assms)

section \<open>Pad toggling and active channels\<close>

lemma togglePad_toggle_grid:
  "togglePad c st s = Inr (s\<lparr>grid := toggle_grid c st (grid s)\<rparr>)"
  unfolding togglePad_def toggle_grid_def toggle_row_def Let_def ..

lemma length_toggle_row: "length (toggle_row st row) = length row"
  by (simp add: toggle_row_def length_map_with_index)

lemma nth_toggle_row:
  "j < length row \<Longrightarrow> toggle_row st row ! j = (if int j = st then \<not> row ! j else row ! j)"
  by (simp add: toggle_row_def nth_map_with_index)

lemma toggle_row_twice: "toggle_row st (toggle_row st row) = row"
  by (rule nth_equalityI) (simp_all add: length_toggle_row nth_toggle_row)

lemma toggle_row_outside:
  "st < 0 \<or> int (length row) \<le> st \<Longrightarrow> toggle_row st row = row"
  by (rule nth_equalityI) (auto simp: length_toggle_row nth_toggle_row)

lemma length_toggle_grid: "length (toggle_grid c st g) = length g"
  by (simp add: toggle_grid_def length_map_with_index)

lemma nth_toggle_grid:
  "i < length g \<Longrightarrow> toggle_grid c st g ! i = (if int i = c then toggle_row st (g ! i) else g ! i)"
  by (simp add: toggle_grid_def nth_map_with_index)

lemma toggle_grid_twice: "toggle_grid c st (toggle_grid c st g) = g"
  by (rule nth_equalityI) (simp_all add: length_toggle_grid nth_toggle_grid toggle_row_twice)

lemma grid_shape_nth:
  "grid_shape g \<Longrightarrow> length g = 8 \<and> (\<forall>i<8. length (g ! i) = 16)"
  by (simp add: grid_shape_def list_all_length)

lemma grid_shape_toggle_grid: "grid_shape g \<Longrightarrow> grid_shape (toggle_grid c st g)"
  by (simp add: grid_shape_def list_all_length length_toggle_grid nth_toggle_grid length_toggle_row)

lemma toggle_grid_outside:
  assumes "grid_shape g" and "c < 0 \<or> 8 \<le> c \<or> st < 0 \<or> 16 \<le> st"
  shows "toggle_grid c st g = g"
proof (rule nth_equalityI)
  show "length (toggle_grid c st g) = length g" by (rule length_toggle_grid)
next
  fix i assume "i < length (toggle_grid c st g)"
  then have i: "i < length g" by (simp add: length_toggle_grid)
  with assms(1) have i8: "i < 8" and row: "length (g ! i) = 16"
    using grid_shape_nth[OF assms(1)] by auto
  show "toggle_grid c st g ! i = g ! i"
  proof (cases "int i = c")
    case False
    with i show ?thesis by (simp add: nth_toggle_grid)
  next
    case True
    with i8 assms(2) have "st < 0 \<or> int (length (g ! i)) \<le> st" using row by auto
    then have "toggle_row st (g ! i) = g ! i" by (rule toggle_row_outside)
    with i True show ?thesis by (simp add: nth_toggle_grid)
  qed
qed

lemma grid_shape_initializeGrid: "grid_shape initializeGrid"
  by (simp add: grid_shape_def initializeGrid_def list_all_length)

lemma grid_initial_state: "grid initial_state = initializeGrid"
  by (simp add: initial_state_def)

text \<open>
  C1 (as amended): for every channel index or step index outside the grid bounds, the toggle
  operation does not fail with \<open>InvalidIndexError\<close>: it returns normally, and the grid it
  returns is the grid it was given, so the indices are not clamped onto a cell either.
\<close>

theorem togglePad_out_of_bounds_never_fails:
  assumes "grid_shape (grid s)" and "c < 0 \<or> 8 \<le> c \<or> st < 0 \<or> 16 \<le> st"
  shows "togglePad c st s \<noteq> Inl InvalidIndexError \<and>
         (\<exists>s'. togglePad c st s = Inr s' \<and> grid s' = grid s)"
  using toggle_grid_outside[OF assms] by (simp add: togglePad_toggle_grid)

text \<open>The amended C1 at channel 8, step 0 of the initial grid.\<close>

theorem togglePad_out_of_bounds_never_fails_witness:
  "grid_shape (grid initial_state) \<and> togglePad 8 0 initial_state \<noteq> Inl InvalidIndexError \<and>
   (\<exists>s'. togglePad 8 0 initial_state = Inr s' \<and> grid s' = grid initial_state)"
  using togglePad_out_of_bounds_never_fails[of initial_state 8 0]
  by (simp add: grid_initial_state grid_shape_initializeGrid)

text \<open>
  C1 (as stated): the claim demands \<open>InvalidIndexError\<close> for channel 8 (step 0) and for step
  \<open>-1\<close> (channel 0); \<open>togglePad\<close> returns normally at both.
\<close>

theorem togglePad_invalid_index_counterexample:
  "togglePad 8 0 initial_state \<noteq> Inl InvalidIndexError \<and>
   togglePad 0 (- 1) initial_state \<noteq> Inl InvalidIndexError"
  by (simp add: togglePad_toggle_grid)

text \<open>
  C10: for every out-of-bounds coordinate (channel not in [0,8) or step not in [0,16)) the
  pad toggle returns normally and the whole sequencer state (grid, running flag, current
  step, tempo) is the state it was given.
\<close>

theorem togglePad_out_of_bounds_noop:
  assumes "grid_shape (grid s)" and "c < 0 \<or> 8 \<le> c \<or> st < 0 \<or> 16 \<le> st"
  shows "togglePad c st s = Inr s"
  using toggle_grid_outside[OF assms] by (simp add: togglePad_toggle_grid)

text \<open>C10 at step 16 of channel 3 and at channel \<open>-1\<close>.\<close>

theorem togglePad_out_of_bounds_noop_witness:
  "grid_shape (grid initial_state) \<and> togglePad 3 16 initial_state = Inr initial_state
   \<and> togglePad (- 1) 4 initial_state = Inr initial_state"
  using togglePad_out_of_bounds_noop[of initial_state 3 16]
    togglePad_out_of_bounds_noop[of initial_state "- 1" 4]
  by (simp add: grid_initial_state grid_shape_initializeGrid)

text \<open>
  C9: for every in-bounds coordinate and every state with an 8 by 16 grid, toggling
  twice at the same coordinate gives back the state; one toggle negates that one cell,
  leaves every other cell as it was and leaves the running flag, the current step and the
  tempo unchanged.
\<close>

theorem togglePad_involution:
  assumes "grid_shape (grid s)" and "0 \<le> c" and "c < 8" and "0 \<le> st" and "st < 16"
  shows "\<exists>s1. togglePad c st s = Inr s1 \<and> togglePad c st s1 = Inr s \<and>
           grid_shape (grid s1) \<and>
           (\<forall>i<8. \<forall>j<16. grid s1 ! i ! j =
               (if i = nat c \<and> j = nat st then \<not> grid s ! i ! j else grid s ! i ! j)) \<and>
           isPlaying s1 = isPlaying s \<and>
           sequencer_state.currentStep s1 = sequencer_state.currentStep s \<and>
           sequencer_state.bpm s1 = sequencer_state.bpm s"
proof -
  let ?s1 = "s\<lparr>grid := toggle_grid c st (grid s)\<rparr>"
  have shape: "length (grid s) = 8" "\<And>i. i < 8 \<Longrightarrow> length (grid s ! i) = 16"
    using grid_shape_nth[OF assms(1)] by simp_all
  have first: "togglePad c st s = Inr ?s1" by (rule togglePad_toggle_grid)
  have second: "togglePad c st ?s1 = Inr s"
    by (simp add: togglePad_toggle_grid toggle_grid_twice)
  have cells: "\<forall>i<8. \<forall>j<16. grid ?s1 ! i ! j =
               (if i = nat c \<and> j = nat st then \<not> grid s ! i ! j else grid s ! i ! j)"
  proof (intro allI impI)
    fix i j :: nat assume i: "i < 8" and j: "j < 16"
    have eqs: "(int i = c) = (i = nat c)" "(int j = st) = (j = nat st)"
      using assms(2,4) by auto
    show "grid ?s1 ! i ! j = (if i = nat c \<and> j = nat st then \<not> grid s ! i ! j else grid s ! i ! j)"
      using i j shape assms(2,4) by (simp add: nth_toggle_grid nth_toggle_row eqs)
  qed
  have "grid_shape (grid ?s1)" using assms(1) by (simp add: grid_shape_toggle_grid)
  with first second cells show ?thesis by auto
qed

text \<open>C9 at channel 2, step 5 of the initial state.\<close>

theorem togglePad_involution_witness:
  "grid_shape (grid initial_state) \<and>
   (\<exists>s1. togglePad 2 5 initial_state = Inr s1 \<and> togglePad 2 5 s1 = Inr initial_state \<and>
      grid s1 ! 2 ! 5 \<and> \<not> grid s1 ! 2 ! 6 \<and> isPlaying s1 = isPlaying initial_state)"
proof -
  have shape: "grid_shape (grid initial_state)"
    by (simp add: grid_initial_state grid_shape_initializeGrid)
  have cell: "\<not> grid initial_state ! 2 ! 5" "\<not> grid initial_state ! 2 ! 6"
    by (simp_all add: grid_initial_state initializeGrid_def)
  from togglePad_involution[OF shape, of 2 5] obtain s1 where
    s1: "togglePad 2 5 initial_state = Inr s1" "togglePad 2 5 s1 = Inr initial_state"
      "\<forall>i<8. \<forall>j<16. grid s1 ! i ! j =
          (if i = nat 2 \<and> j = nat 5 then \<not> grid initial_state ! i ! j else grid initial_state ! i ! j)"
      "isPlaying s1 = isPlaying initial_state"
    by auto
  from s1(3) have "grid s1 ! 2 ! 5 = (\<not> grid initial_state ! 2 ! 5)"
    and "grid s1 ! 2 ! 6 = grid initial_state ! 2 ! 6" by simp_all
  with cell shape s1 show ?thesis by auto
qed

lemma getActiveChannels_filter:
  "getActiveChannels s st =
     map int (filter (\<lambda>c. row_truthy (grid s ! c) st) [0..<length (grid s)])"
  unfolding getActiveChannels_def map_with_index_def
  by (induction "grid s" arbitrary: s rule: rev_induct) (auto simp: filter_map comp_def)

text \<open>
  C7: for every grid and every step index, \<open>getActiveChannels\<close> returns exactly the
  channel indices whose cell at that step is set, in strictly ascending order and without
  duplicates, and returns the empty list when no cell of the column is set.
\<close>

theorem getActiveChannels_exact_ascending:
  "set (getActiveChannels s st) =
     {int c | c. c < length (grid s) \<and> 0 \<le> st \<and> st < int (length (grid s ! c)) \<and> grid s ! c ! nat st}
   \<and> sorted_wrt (<) (getActiveChannels s st)
   \<and> distinct (getActiveChannels s st)
   \<and> ((\<forall>c<length (grid s). \<not> (0 \<le> st \<and> st < int (length (grid s ! c)) \<and> grid s ! c ! nat st))
        \<longrightarrow> getActiveChannels s st = [])"
proof -
  let ?P = "\<lambda>c. row_truthy (grid s ! c) st"
  let ?cs = "filter ?P [0..<length (grid s)]"
  have eq: "getActiveChannels s st = map int ?cs" by (rule getActiveChannels_filter)
  have P: "\<And>c. ?P c = (0 \<le> st \<and> st < int (length (grid s ! c)) \<and> grid s ! c ! nat st)"
    by (auto simp: row_truthy_def)
  have a: "set (getActiveChannels s st) =
     {int c | c. c < length (grid s) \<and> 0 \<le> st \<and> st < int (length (grid s ! c)) \<and> grid s ! c ! nat st}"
    unfolding eq using P by auto
  have "sorted_wrt (<) ?cs" by (rule sorted_wrt_filter) simp
  then have b: "sorted_wrt (<) (getActiveChannels s st)"
    unfolding eq by (simp add: sorted_wrt_map)
  have c: "distinct (getActiveChannels s st)"
    unfolding eq by (simp add: distinct_map)
  have d: "(\<forall>c<length (grid s). \<not> (0 \<le> st \<and> st < int (length (grid s ! c)) \<and> grid s ! c ! nat st))
        \<longrightarrow> getActiveChannels s st = []"
    unfolding eq by (simp add: filter_empty_conv P)
  from a b c d show ?thesis by blast
qed

text \<open>
  C7 on the empty initial grid (nothing is active at step 3) and on a pattern with
  channels 0 and 2 set.
\<close>

theorem getActiveChannels_exact_ascending_witness:
  "getActiveChannels initial_state 3 = [] \<and>
   getActiveChannels demo_state 3 = [0, 2] \<and>
   sorted_wrt (<) (getActiveChannels demo_state 3) \<and> distinct (getActiveChannels demo_state 3)"
proof -
  have "\<forall>c<length (grid initial_state).
          \<not> (0 \<le> (3::int) \<and> 3 < int (length (grid initial_state ! c)) \<and> grid initial_state ! c ! nat 3)"
    by (simp add: grid_initial_state initializeGrid_def)
  with getActiveChannels_exact_ascending[of initial_state 3]
  have empty: "getActiveChannels initial_state 3 = []" by simp
  have demo: "getActiveChannels demo_state 3 = [0, 2]"
    by (simp add: getActiveChannels_filter demo_state_def row_truthy_def upt_conv_Cons nth_Cons')
  from getActiveChannels_exact_ascending[of demo_state 3] empty demo show ?thesis by simp
qed

section \<open>The step clock: stop and the timing check\<close>

lemma step_callbacks_append: "step_callbacks (xs @ ys) = step_callbacks xs @ step_callbacks ys"
  by (induction xs rule: step_callbacks.induct) simp_all

lemma checkTiming_not_running:
  "\<not> isRunning c \<Longrightarrow> checkTiming now h c = ([], c)"
  by (simp add: checkTiming_def)

lemma setBpm_fst: "fst (setBpm b now c) = []"
  by (simp add: setBpm_def Let_def)

lemma setBpm_flags:
  "isRunning (snd (setBpm b now c)) = isRunning c"
  "audioContext (snd (setBpm b now c)) = audioContext c"
  "onStepCallback (snd (setBpm b now c)) = onStepCallback c"
  by (simp_all add: setBpm_def Let_def)


lemma start_begin_isRunning: "isRunning (snd (start_begin created c)) = isRunning c"
  by (simp add: start_begin_def)

lemma stop_isRunning: "\<not> isRunning (snd (stop c))"
  by (simp add: stop_def Let_def split: option.split)

lemma stop_step_callbacks: "step_callbacks (fst (stop c)) = []"
  by (simp add: stop_def Let_def split: option.split)

lemma call_stopped:
  "\<not> isRunning c \<Longrightarrow> \<not> resumes_start e \<Longrightarrow>
     step_callbacks (fst (call e c)) = [] \<and> \<not> isRunning (snd (call e c))"
  by (cases e)
     (simp_all add: checkTiming_not_running setBpm_fst setBpm_flags
        stop_isRunning stop_step_callbacks onStep_def start_begin_isRunning)

lemma run_calls_stopped:
  "\<not> isRunning c \<Longrightarrow> list_all (\<lambda>e. \<not> resumes_start e) es \<Longrightarrow>
     step_callbacks (fst (run_calls es c)) = []"
proof (induction es arbitrary: c)
  case Nil
  then show ?case by simp
next
  case (Cons e es)
  from Cons.prems(2) have e_ok: "\<not> resumes_start e" and es_ok: "list_all (\<lambda>e. \<not> resumes_start e) es"
    by simp_all
  obtain fx c1 where e: "call e c = (fx, c1)" by (cases "call e c")
  obtain fxs c2 where es: "run_calls es c1 = (fxs, c2)" by (cases "run_calls es c1")
  from call_stopped[OF Cons.prems(1) e_ok] e
  have fx: "step_callbacks fx = []" and c1: "\<not> isRunning c1" by simp_all
  from Cons.IH[OF c1 es_ok] es have "step_callbacks fxs = []" by simp
  with fx e es show ?case by (simp add: step_callbacks_append)
qed

lemma stop_fst:
  "fst (stop c) =
     (case animationFrameId c of Some h \<Rightarrow> if h \<noteq> 0 then [CancelFrame h] else [] | None \<Rightarrow> [])"
  by (simp add: stop_def Let_def split: option.split)

lemma stop_snd:
  "snd (stop c) =
     c\<lparr>isRunning := False, currentStep := 0,
       animationFrameId :=
         (case animationFrameId c of Some h \<Rightarrow> if h \<noteq> 0 then None else Some h | None \<Rightarrow> None)\<rparr>"
  by (simp add: stop_def Let_def split: option.split)

lemma stop_twice: "stop (snd (stop c)) = ([], snd (stop c))"
  by (rule prod_eqI) (simp_all add: stop_fst stop_snd split: option.split)

text \<open>
  C3 (as amended): for every clock state, after \<open>stop\<close> the clock is not running and the
  current step is 0; \<open>stop\<close> itself calls no step callback and cancels the frame request
  whose handle the clock holds; whatever runs afterwards other than the continuation of a
  \<open>start\<close> (checks by frame callbacks at any time, cancelled or not, tempo changes,
  further stops, registrations, the beginning of a \<open>start\<close>) calls no step callback; and
  a second \<open>stop\<close> changes nothing.
\<close>

theorem stop_resets_and_silences:
  "isRunning (snd (stop c)) = False \<and> currentStep (snd (stop c)) = 0 \<and>
   step_callbacks (fst (stop c)) = [] \<and>
   fst (stop c) =
     (case animationFrameId c of Some h \<Rightarrow> if h \<noteq> 0 then [CancelFrame h] else [] | None \<Rightarrow> []) \<and>
   (\<forall>calls. list_all (\<lambda>e. \<not> resumes_start e) calls \<longrightarrow>
      step_callbacks (fst (run_calls calls (snd (stop c)))) = []) \<and>
   stop (snd (stop c)) = ([], snd (stop c))"
proof -
  have "\<forall>calls. list_all (\<lambda>e. \<not> resumes_start e) calls \<longrightarrow>
      step_callbacks (fst (run_calls calls (snd (stop c)))) = []"
    using run_calls_stopped[OF stop_isRunning] by blast
  moreover have "currentStep (snd (stop c)) = 0" by (simp add: stop_snd)
  ultimately show ?thesis
    using stop_isRunning[of c] stop_step_callbacks[of c] stop_fst[of c] stop_twice[of c]
    by simp
qed

text \<open>
  The amended C3 on the started clock: the frame with handle 1 is cancelled and what
  follows fires nothing, where two checks on the running clock fire steps 0 and 1.
\<close>

theorem stop_resets_and_silences_witness:
  "fst (stop started_clock) = [CancelFrame 1] \<and>
   isRunning (snd (stop started_clock)) = False \<and>
   step_callbacks (fst (run_calls [StartBegin True, CheckTiming 3 2, SetBpm (Fin 90) 3, CheckTiming 4 3]
     (snd (stop started_clock)))) = [] \<and>
   step_callbacks (fst (run_calls [CheckTiming 3 2, CheckTiming 4 3] started_clock)) = [0, 1]"
proof -
  note stopped = stop_resets_and_silences[of started_clock]
  have handle: "animationFrameId started_clock = Some 1"
    by (simp add: started_clock_def)
  from stopped handle have cancelled: "fst (stop started_clock) = [CancelFrame 1]"
    by simp
  from stopped have off: "isRunning (snd (stop started_clock)) = False"
    by blast
  have allowed: "list_all (\<lambda>e. \<not> resumes_start e)
      [StartBegin True, CheckTiming 3 2, SetBpm (Fin 90) 3, CheckTiming 4 3]"
    by simp
  from stopped allowed have silent:
    "step_callbacks (fst (run_calls [StartBegin True, CheckTiming 3 2, SetBpm (Fin 90) 3, CheckTiming 4 3]
       (snd (stop started_clock)))) = []"
    by blast
  have running:
    "step_callbacks (fst (run_calls [CheckTiming 3 2, CheckTiming 4 3] started_clock)) = [0, 1]"
    by (simp add: started_clock_def checkTiming_def triggerStep_def totalSteps_def Let_def
        signed_modulo_int_def)
  from cancelled off silent running show ?thesis by blast
qed

text \<open>
  C3 (as stated): \<open>start()\<close> is called on the clock at rest and awaits
  \<open>initialize\<close>; \<open>stop()\<close> is called and returns; the continuation of \<open>start\<close> then
  runs, sets \<open>isRunning\<close> without looking at it, and the check at time 3 calls the step
  callback with step 0, after \<open>stop\<close> has returned and with no \<open>start\<close> called since.
\<close>

theorem stop_then_awaited_start_counterexample:
  "fst (start_begin True idle_clock) \<and>
   step_callbacks (fst (run_calls [StartResume (Fin 120) 0 True 2 1, CheckTiming 3 2]
      (snd (stop (snd (start_begin True idle_clock)))))) = [0]"
  by (simp add: idle_clock_def start_begin_def stop_def start_resume_def checkTiming_def
      triggerStep_def calculateStepDuration_def js_max_def js_min_def totalSteps_def Let_def
      signed_modulo_int_def)

lemma smod_step: "0 \<le> n \<Longrightarrow> (n + 1) smod 16 = (n + 1) mod 16" for n :: int
  by (simp add: signed_modulo_int_def sgn_if)

lemma checkTiming_due:
  assumes "isRunning c" and "audioContext c" and "js_ge (Fin now) (nextStepTime c)"
  shows "checkTiming now h c =
           ((if onStepCallback c then [StepCallback (currentStep c)] else []) @ [RequestFrame],
            c\<lparr>currentStep := (currentStep c + 1) smod 16,
              nextStepTime := js_add (nextStepTime c) (stepDuration c),
              animationFrameId := Some h\<rparr>)"
  using assms by (simp add: checkTiming_def triggerStep_def totalSteps_def Let_def)

lemma checkTiming_not_due:
  assumes "\<not> js_ge (Fin now) (nextStepTime c)"
  shows "step_callbacks (fst (checkTiming now h c)) = []"
    and "currentStep (snd (checkTiming now h c)) = currentStep c"
    and "nextStepTime (snd (checkTiming now h c)) = nextStepTime c"
  using assms by (simp_all add: checkTiming_def Let_def)

lemma checkTiming_at_most_one: "length (step_callbacks (fst (checkTiming now h c))) \<le> 1"
  by (simp add: checkTiming_def triggerStep_def Let_def step_callbacks_append)

lemma checkTiming_backlog:
  assumes "isRunning c" and "audioContext c" and "onStepCallback c"
    and "js_ge (Fin now) (nextStepTime c)"
    and "js_ge (Fin now') (js_add (nextStepTime c) (stepDuration c))"
  shows "step_callbacks (fst (run_calls [CheckTiming now h, CheckTiming now' h'] c)) =
           [currentStep c, (currentStep c + 1) smod 16]"
proof -
  let ?c1 = "c\<lparr>currentStep := (currentStep c + 1) smod 16,
              nextStepTime := js_add (nextStepTime c) (stepDuration c),
              animationFrameId := Some h\<rparr>"
  have first: "checkTiming now h c = ([StepCallback (currentStep c), RequestFrame], ?c1)"
    using checkTiming_due[OF assms(1,2,4), of h] assms(3) by simp
  have "isRunning ?c1" "audioContext ?c1" "js_ge (Fin now') (nextStepTime ?c1)"
    using assms by simp_all
  from checkTiming_due[OF this, of h'] assms(3)
  have second: "step_callbacks (fst (checkTiming now' h' ?c1)) = [(currentStep c + 1) smod 16]"
    by simp
  obtain fx2 c2 where c2: "checkTiming now' h' ?c1 = (fx2, c2)" by (cases "checkTiming now' h' ?c1")
  with second have "step_callbacks fx2 = [(currentStep c + 1) smod 16]" by simp
  with first c2 show ?thesis by (simp add: step_callbacks_append)
qed

text \<open>
  C4 (as amended): one run of \<open>checkTiming\<close> calls the step callback at most once, for
  every state and time. On a running clock (holding its context) whose deadline has
  passed, by however much, it calls the registered callback exactly once with the step
  before the advance (and calls nothing when none is registered), the current step becomes
  the JavaScript remainder \<open>(currentStep + 1) % 16\<close>, which is \<open>(currentStep + 1) mod 16\<close>
  for a current step that is not negative, and the deadline becomes the previous deadline
  plus one step duration. The steps that fell behind are not skipped: when the deadline is
  still behind after that, the following check fires the next step, one step per check.
  Before the deadline a check fires nothing and moves neither step nor deadline.
\<close>

theorem checkTiming_fires_once:
  "length (step_callbacks (fst (checkTiming now h c))) \<le> 1 \<and>
   (isRunning c \<and> audioContext c \<and> js_ge (Fin now) (nextStepTime c) \<longrightarrow>
      step_callbacks (fst (checkTiming now h c)) = (if onStepCallback c then [currentStep c] else []) \<and>
      currentStep (snd (checkTiming now h c)) = (currentStep c + 1) smod 16 \<and>
      (0 \<le> currentStep c \<longrightarrow> currentStep (snd (checkTiming now h c)) = (currentStep c + 1) mod 16) \<and>
      nextStepTime (snd (checkTiming now h c)) = js_add (nextStepTime c) (stepDuration c) \<and>
      stepDuration (snd (checkTiming now h c)) = stepDuration c \<and>
      isRunning (snd (checkTiming now h c)) \<and>
      (\<forall>now' h'. onStepCallback c \<and> js_ge (Fin now') (js_add (nextStepTime c) (stepDuration c)) \<longrightarrow>
         step_callbacks (fst (run_calls [CheckTiming now h, CheckTiming now' h'] c)) =
           [currentStep c, (currentStep c + 1) smod 16])) \<and>
   (\<not> js_ge (Fin now) (nextStepTime c) \<longrightarrow>
      step_callbacks (fst (checkTiming now h c)) = [] \<and>
      currentStep (snd (checkTiming now h c)) = currentStep c \<and>
      nextStepTime (snd (checkTiming now h c)) = nextStepTime c)"
proof -
  have due: "step_callbacks (fst (checkTiming now h c)) = (if onStepCallback c then [currentStep c] else []) \<and>
      currentStep (snd (checkTiming now h c)) = (currentStep c + 1) smod 16 \<and>
      (0 \<le> currentStep c \<longrightarrow> currentStep (snd (checkTiming now h c)) = (currentStep c + 1) mod 16) \<and>
      nextStepTime (snd (checkTiming now h c)) = js_add (nextStepTime c) (stepDuration c) \<and>
      stepDuration (snd (checkTiming now h c)) = stepDuration c \<and>
      isRunning (snd (checkTiming now h c)) \<and>
      (\<forall>now' h'. onStepCallback c \<and> js_ge (Fin now') (js_add (nextStepTime c) (stepDuration c)) \<longrightarrow>
         step_callbacks (fst (run_calls [CheckTiming now h, CheckTiming now' h'] c)) =
           [currentStep c, (currentStep c + 1) smod 16])"
    if run: "isRunning c" "audioContext c" and late: "js_ge (Fin now) (nextStepTime c)"
  proof -
    note eq = checkTiming_due[OF run late, of h]
    have single: "step_callbacks (fst (checkTiming now h c)) = (if onStepCallback c then [currentStep c] else [])"
      unfolding eq by simp
    have state: "currentStep (snd (checkTiming now h c)) = (currentStep c + 1) smod 16"
      "nextStepTime (snd (checkTiming now h c)) = js_add (nextStepTime c) (stepDuration c)"
      "stepDuration (snd (checkTiming now h c)) = stepDuration c"
      "isRunning (snd (checkTiming now h c))"
      unfolding eq using run by simp_all
    have wrap: "0 \<le> currentStep c \<longrightarrow> currentStep (snd (checkTiming now h c)) = (currentStep c + 1) mod 16"
      using state(1) by (simp add: smod_step)
    have backlog: "\<forall>now' h'. onStepCallback c \<and> js_ge (Fin now') (js_add (nextStepTime c) (stepDuration c)) \<longrightarrow>
         step_callbacks (fst (run_calls [CheckTiming now h, CheckTiming now' h'] c)) =
           [currentStep c, (currentStep c + 1) smod 16]"
      using checkTiming_backlog[OF run _ late] by blast
    from single state wrap backlog show ?thesis by blast
  qed
  have early: "step_callbacks (fst (checkTiming now h c)) = [] \<and>
      currentStep (snd (checkTiming now h c)) = currentStep c \<and>
      nextStepTime (snd (checkTiming now h c)) = nextStepTime c"
    if "\<not> js_ge (Fin now) (nextStepTime c)"
    using checkTiming_not_due[OF that] by simp
  from checkTiming_at_most_one[of now h c] due early show ?thesis by blast
qed

text \<open>
  The amended C4 on the started clock (deadline 2.125, step duration 0.125): a check at
  time 3, by when eight step boundaries have passed, fires step 0 only and moves the
  deadline to 2.25; a second check at time 3 fires step 1; a check at time 2 fires nothing.
\<close>

theorem checkTiming_fires_once_witness:
  "step_callbacks (fst (checkTiming 3 2 started_clock)) = [0] \<and>
   currentStep (snd (checkTiming 3 2 started_clock)) = 1 \<and>
   nextStepTime (snd (checkTiming 3 2 started_clock)) = Fin (2 + 1 / 8 + 1 / 8) \<and>
   step_callbacks (fst (run_calls [CheckTiming 3 2, CheckTiming 3 3] started_clock)) = [0, 1] \<and>
   step_callbacks (fst (checkTiming 2 2 started_clock)) = []"
proof -
  have fields: "isRunning started_clock" "audioContext started_clock" "onStepCallback started_clock"
    "currentStep started_clock = 0" "nextStepTime started_clock = Fin (2 + 1 / 8)"
    "stepDuration started_clock = Fin (1 / 8)"
    by (simp_all add: started_clock_def)
  have late: "js_ge (Fin 3) (nextStepTime started_clock)"
    "js_ge (Fin 3) (js_add (nextStepTime started_clock) (stepDuration started_clock))"
    and early: "\<not> js_ge (Fin 2) (nextStepTime started_clock)"
    by (simp_all add: fields)
  from checkTiming_fires_once[of 3 2 started_clock] fields(1,2) late(1)
  have at3: "step_callbacks (fst (checkTiming 3 2 started_clock)) = [0]"
    "currentStep (snd (checkTiming 3 2 started_clock)) = (0 + 1) mod 16"
    "nextStepTime (snd (checkTiming 3 2 started_clock)) = js_add (Fin (2 + 1 / 8)) (Fin (1 / 8))"
    "\<forall>now' h'. onStepCallback started_clock \<and>
        js_ge (Fin now') (js_add (nextStepTime started_clock) (stepDuration started_clock)) \<longrightarrow>
        step_callbacks (fst (run_calls [CheckTiming 3 2, CheckTiming now' h'] started_clock)) =
          [currentStep started_clock, (currentStep started_clock + 1) smod 16]"
    by (simp_all add: fields)
  from at3(4) fields(3) late(2)
  have two: "step_callbacks (fst (run_calls [CheckTiming 3 2, CheckTiming 3 3] started_clock)) =
      [currentStep started_clock, (currentStep started_clock + 1) smod 16]"
    by blast
  from checkTiming_fires_once[of 2 2 started_clock] early
  have at2: "step_callbacks (fst (checkTiming 2 2 started_clock)) = []" by blast
  from at3(1,2,3) two at2 show ?thesis
    by (simp add: fields signed_modulo_int_def)
qed

text \<open>
  C4 (as stated): the claim has the steps that fell behind skipped, never caught up. Three
  checks at the same time 3 fire steps 0, 1 and 2: the backlog is fired, one step per
  check. Also, a running clock without a subscriber fires nothing, and a running clock on
  step \<open>-5\<close> (which \<open>start\<close> stores unchecked) advances to \<open>-4\<close>, not to
  \<open>(-5 + 1) mod 16 = 12\<close>.
\<close>

theorem checkTiming_backlog_counterexample:
  "step_callbacks (fst (run_calls [CheckTiming 3 2, CheckTiming 3 3, CheckTiming 3 4] started_clock)) = [0, 1, 2] \<and>
   step_callbacks (fst (checkTiming 3 2 (started_clock\<lparr>onStepCallback := False\<rparr>))) = [] \<and>
   currentStep (snd (checkTiming 3 2 (started_clock\<lparr>currentStep := - 5\<rparr>))) = - 4 \<and>
   (- 5 + 1) mod 16 = (12 :: int)"
  by (simp add: started_clock_def checkTiming_def triggerStep_def totalSteps_def Let_def
      signed_modulo_int_def)

section \<open>The step clock: step duration and tempo changes\<close>



lemma calculateStepDuration_Fin:
  "bpm c = Fin t \<Longrightarrow> 0 < t \<Longrightarrow> calculateStepDuration c = Fin ((60 / t) / 4)"
  by (simp add: calculateStepDuration_def)

text \<open>
  C6: for every tempo in [80,200] the step duration is \<open>(60 / tempo) / 4\<close> seconds (and
  positive), and of two tempos in that range the larger has the strictly smaller step
  duration.
\<close>

theorem calculateStepDuration_formula_decreasing:
  "(bpm c = Fin t \<and> 80 \<le> t \<and> t \<le> 200 \<longrightarrow>
      calculateStepDuration c = Fin ((60 / t) / 4) \<and> 0 < (60 / t) / 4) \<and>
   (bpm c = Fin t \<and> bpm c' = Fin t' \<and> 80 \<le> t \<and> t < t' \<and> t' \<le> 200 \<longrightarrow>
      (\<exists>d d'. calculateStepDuration c = Fin d \<and> calculateStepDuration c' = Fin d' \<and> d' < d))"
proof -
  have formula: "calculateStepDuration c = Fin ((60 / t) / 4) \<and> 0 < (60 / t) / 4"
    if "bpm c = Fin t" and "80 \<le> t"
    using that by (simp add: calculateStepDuration_Fin)
  have decreasing: "\<exists>d d'. calculateStepDuration c = Fin d \<and> calculateStepDuration c' = Fin d' \<and> d' < d"
    if c: "bpm c = Fin t" and c': "bpm c' = Fin t'" and lo: "80 \<le> t" and lt: "t < t'"
  proof -
    from lo lt have pos: "0 < t" "0 < t'" by simp_all
    with lt have "60 / t' < 60 / t" by (simp add: frac_less2)
    then have "(60 / t') / 4 < (60 / t) / 4" by simp
    with calculateStepDuration_Fin[OF c pos(1)] calculateStepDuration_Fin[OF c' pos(2)]
    show ?thesis by blast
  qed
  from formula decreasing show ?thesis by blast
qed

text \<open>
  C6 at tempo 120 (an eighth of a second) against tempo 150.
\<close>

theorem calculateStepDuration_formula_decreasing_witness:
  "calculateStepDuration started_clock = Fin (1 / 8) \<and>
   (\<exists>d d'. calculateStepDuration started_clock = Fin d \<and>
      calculateStepDuration (started_clock\<lparr>bpm := Fin 150\<rparr>) = Fin d' \<and> d' < d)"
proof -
  have tempo: "bpm started_clock = Fin 120" "bpm (started_clock\<lparr>bpm := Fin 150\<rparr>) = Fin 150"
    by (simp_all add: started_clock_def)
  note formula = calculateStepDuration_formula_decreasing[of started_clock 120 "started_clock\<lparr>bpm := Fin 150\<rparr>" 150]
  have range: "bpm started_clock = Fin 120 \<and> (80::real) \<le> 120 \<and> (120::real) \<le> 200"
    "bpm started_clock = Fin 120 \<and> bpm (started_clock\<lparr>bpm := Fin 150\<rparr>) = Fin 150 \<and>
       (80::real) \<le> 120 \<and> (120::real) < 150 \<and> (150::real) \<le> 200"
    using tempo by simp_all
  from formula range(1) have "calculateStepDuration started_clock = Fin ((60 / 120) / 4)"
    by blast
  then have eighth: "calculateStepDuration started_clock = Fin (1 / 8)" by simp
  from formula range(2)
  have "\<exists>d d'. calculateStepDuration started_clock = Fin d \<and>
      calculateStepDuration (started_clock\<lparr>bpm := Fin 150\<rparr>) = Fin d' \<and> d' < d"
    by blast
  with eighth show ?thesis by blast
qed










section \<open>The connection session: sending and reconnecting\<close>

lemma sendMessage_not_connected:
  "\<not> isConnected s \<Longrightarrow>
     sendMessage m thrown s = (False, s\<lparr>lastError := Some ''WebSocket not connected''\<rparr>)"
  by (simp add: sendMessage_def)

lemma sendMessage_accepted:
  "isConnected s \<Longrightarrow>
     sendMessage m None s = (True, s\<lparr>sendJsonMessage_calls := sendJsonMessage_calls s @ [m]\<rparr>)"
  by (simp add: sendMessage_def)

text \<open>
  C8: for every channel list and duration, when the session is not connected
  \<open>triggerGPIO\<close> returns false and \<open>sendJsonMessage\<close> is not called at all, so nothing of
  the message is transmitted; when the session is connected and \<open>sendJsonMessage\<close>
  returns normally, \<open>triggerGPIO\<close> returns true and the one message handed over is the
  \<open>gpio_trigger\<close> with these channels and this duration.
\<close>

theorem triggerGPIO_connected_or_nothing:
  "(\<not> isConnected s \<longrightarrow>
      fst (triggerGPIO channels duration thrown s) = False \<and>
      sendJsonMessage_calls (snd (triggerGPIO channels duration thrown s)) = sendJsonMessage_calls s) \<and>
   (isConnected s \<and> thrown = None \<longrightarrow>
      fst (triggerGPIO channels duration thrown s) = True \<and>
      sendJsonMessage_calls (snd (triggerGPIO channels duration thrown s)) =
        sendJsonMessage_calls s @ [\<lparr>type = ''gpio_trigger'', data = GPIOCommand channels duration\<rparr>])"
  by (simp add: triggerGPIO_def sendMessage_not_connected sendMessage_accepted)

text \<open>
  C8 for the batch \<open>{channels: [0, 2, 5], duration: 50}\<close>, on a closed and on an open
  session.
\<close>

theorem triggerGPIO_connected_or_nothing_witness:
  "fst (triggerGPIO [0, 2, 5] 50 None closed_session) = False \<and>
   sendJsonMessage_calls (snd (triggerGPIO [0, 2, 5] 50 None closed_session)) = [] \<and>
   fst (triggerGPIO [0, 2, 5] 50 None open_session) = True \<and>
   sendJsonMessage_calls (snd (triggerGPIO [0, 2, 5] 50 None open_session)) =
     [\<lparr>type = ''gpio_trigger'', data = GPIOCommand [0, 2, 5] 50\<rparr>]"
proof -
  have closed: "\<not> isConnected closed_session" "sendJsonMessage_calls closed_session = []"
    by (simp_all add: isConnected_def closed_session_def)
  have opened: "isConnected open_session" "sendJsonMessage_calls open_session = []"
    by (simp_all add: isConnected_def open_session_def closed_session_def)
  from triggerGPIO_connected_or_nothing[of closed_session "[0, 2, 5]" 50 None]
    triggerGPIO_connected_or_nothing[of open_session "[0, 2, 5]" 50 None] closed opened
  show ?thesis by simp
qed

text \<open>
  C2: with the options the hook passes, the first reconnection attempt after a close is
  scheduled 3000 ms later, no attempt is scheduled once one has been made, and no delay
  other than 3000 ms is ever scheduled: the spacing does not grow and the retrying stops.
\<close>

theorem reconnect_one_fixed_attempt:
  "next_reconnect useWebSocket_options 0 = Some 3000 \<and>
   next_reconnect useWebSocket_options 1 = None \<and>
   (\<forall>n. next_reconnect useWebSocket_options n = Some 3000 \<or>
        next_reconnect useWebSocket_options n = None)"
  by (simp add: next_reconnect_def useWebSocket_options_def)

end
